theory Spec2Isabelle
  imports Main "HOL-Library.Word"
begin

section \<open>Machine types\<close>

text \<open>
  The package is Go for Linux. Go's \<open>int\<close>, \<open>uint\<close> and \<open>uintptr\<close> are modelled at
  their width on 64-bit targets; \<open>int\<close> is read as two's complement with \<open>sint\<close>.
  Conversions between integer types (\<open>uint8(n)\<close>, \<open>uint32(n)\<close>) keep the low bits,
  which is \<open>ucast\<close>.
\<close>

type_synonym go_int = "64 word"
type_synonym go_uint = "64 word"
type_synonym byte = "8 word"
type_synonym errno = "64 word"
type_synonym output_pin = nat

section \<open>Control-block codec (declarations from linux/spi/spidev.h)\<close>

record spi_ioc_transfer =
  tx_buf :: "64 word"
  rx_buf :: "64 word"
  len :: "32 word"
  speed_hz :: "32 word"
  delay_usecs :: "16 word"
  bits_per_word :: "8 word"
  cs_change :: "8 word"
  tx_nbits :: "8 word"
  rx_nbits :: "8 word"
  pad :: "16 word"

definition spi_IOC_MESSAGE_base :: go_uint where
  "spi_IOC_MESSAGE_base = 0x40006B00"

definition spi_IOC_MESSAGE_incr :: go_uint where
  "spi_IOC_MESSAGE_incr = 0x200000"

definition spi_IOC_RD_MODE :: go_uint where
  "spi_IOC_RD_MODE = 0x80016B01"

definition spi_IOC_WR_MODE :: go_uint where
  "spi_IOC_WR_MODE = 0x40016B01"

definition spi_IOC_RD_LSB_FIRST :: go_uint where
  "spi_IOC_RD_LSB_FIRST = 0x80016B02"

definition spi_IOC_WR_LSB_FIRST :: go_uint where
  "spi_IOC_WR_LSB_FIRST = 0x40016B02"

definition spi_IOC_RD_BITS_PER_WORD :: go_uint where
  "spi_IOC_RD_BITS_PER_WORD = 0x80016B03"

definition spi_IOC_WR_BITS_PER_WORD :: go_uint where
  "spi_IOC_WR_BITS_PER_WORD = 0x40016B03"

definition spi_IOC_RD_MAX_SPEED_HZ :: go_uint where
  "spi_IOC_RD_MAX_SPEED_HZ = 0x80046B04"

definition spi_IOC_WR_MAX_SPEED_HZ :: go_uint where
  "spi_IOC_WR_MAX_SPEED_HZ = 0x40046B04"

text \<open>\<open>func spi_IOC_MESSAGE(n uint) uint\<close>: unsigned arithmetic, wrapping.\<close>

definition spi_IOC_MESSAGE :: "go_uint \<Rightarrow> go_uint" where
  "spi_IOC_MESSAGE n = spi_IOC_MESSAGE_base + n * spi_IOC_MESSAGE_incr"

section \<open>Errors, devices and the calls that leave the package\<close>

text \<open>
  The error values the package builds. \<open>Errno\<close> is \<open>unix.Errno\<close>; \<open>External\<close> is an
  error made by the gpio package. The other constructors are the \<open>fmt.Errorf\<close> sites:
  \<^item> \<open>OpenError path err\<close>: \<open>"%s: %w"\<close> (wraps \<open>err\<close>);
  \<^item> \<open>DeviceBusyError path\<close>: \<open>"%s: device is in use"\<close> (wraps nothing);
  \<^item> \<open>ChipSelectError pin err\<close>: \<open>"GPIO %d for chip select: %w"\<close>;
  \<^item> \<open>LengthMismatchError s r\<close>:
    \<open>"transfer buffers must be the same length (snd = %d, rcv = %d)"\<close>;
  \<^item> \<open>OpenErrorV path err\<close> and \<open>ChipSelectErrorV pin err\<close>: the same two messages written
    with \<open>%v\<close> by the earlier versions of the file (the text of \<open>err\<close>, nothing wrapped).
\<close>

datatype go_error =
    Errno errno
  | External string
  | OpenError string go_error
  | DeviceBusyError string
  | ChipSelectError go_int go_error
  | LengthMismatchError go_int go_int
  | OpenErrorV string go_error
  | ChipSelectErrorV go_int go_error

text \<open>A call either returns or ends in a run-time panic.\<close>

datatype 'a outcome = Returns 'a | Panics string

text \<open>\<open>type Device struct { fd int; speed int; cs gpio.OutputPin }\<close>; a nil interface is \<open>None\<close>.\<close>

record Device =
  fd :: go_int
  speed :: go_int
  cs :: "output_pin option"

text \<open>A byte slice: the address of its first element and its elements.\<close>

record byte_slice =
  base :: "64 word"
  elems :: "byte list"

definition go_len :: "byte_slice \<Rightarrow> go_int" where
  "go_len s = of_nat (length (elems s))"

text \<open>The value a device-control call points at.\<close>

datatype ioctl_arg =
    ArgU8 "8 word"
  | ArgU32 "32 word"
  | ArgTransfer spi_ioc_transfer

text \<open>
  Every call that leaves the package is logged, in order: the system calls
  (\<open>unix.Open\<close>, \<open>unix.Flock\<close>, \<open>unix.Close\<close>, \<open>unix.Read\<close> with the length asked for and
  the count returned, the ioctl with its request code and argument), \<open>gpio.Output\<close> with
  its three arguments, and \<open>Write\<close> on the chip-select pin.
\<close>

datatype event =
    SysOpen string
  | SysFlock go_int
  | SysClose go_int
  | GpioOutput go_int bool bool
  | CsWrite output_pin bool
  | SysIoctl go_int go_uint ioctl_arg
  | SysRead go_int nat "errno + nat"

text \<open>
  What the operating system and the gpio package answer. \<open>sys_flock\<close> gives \<open>None\<close> for a
  nil error; \<open>sys_ioctl\<close> gives the errno (0 on success) and the value left behind the
  pointer; \<open>sys_read fd k\<close> is the answer to the \<open>k\<close>-th read of one \<open>Read\<close> call: an errno, or
  the bytes the device has ready, of which at most the length of the slice passed are taken.
\<close>

record world =
  sys_open :: "string \<Rightarrow> errno + go_int"
  sys_flock :: "go_int \<Rightarrow> errno option"
  gpio_Output :: "go_int \<Rightarrow> bool \<Rightarrow> bool \<Rightarrow> go_error + output_pin"
  sys_ioctl :: "go_int \<Rightarrow> go_uint \<Rightarrow> ioctl_arg \<Rightarrow> errno \<times> ioctl_arg"
  sys_read :: "go_int \<Rightarrow> nat \<Rightarrow> errno + byte list"

text \<open>\<open>unix.EWOULDBLOCK\<close> of golang.org/x/sys/unix on Linux (the value of \<open>EAGAIN\<close>).\<close>

definition EWOULDBLOCK :: errno where
  "EWOULDBLOCK = 11"

section \<open>spi.go\<close>

text \<open>
  \<open>func (dev *Device) syscall(op uint, arg unsafe.Pointer) error\<close>. The result is the
  error (\<open>None\<close> for nil), the value behind the pointer after the call, and the log.
\<close>

definition syscall :: "world \<Rightarrow> Device \<Rightarrow> go_uint \<Rightarrow> ioctl_arg \<Rightarrow> (go_error option \<times> ioctl_arg) \<times> event list" where
  "syscall w dev op arg =
     (case sys_ioctl w (fd dev) op arg of
        (e, arg') \<Rightarrow> ((if e \<noteq> 0 then Some (Errno e) else None, arg'), [SysIoctl (fd dev) op arg]))"

definition syscallU8 :: "world \<Rightarrow> Device \<Rightarrow> go_uint \<Rightarrow> 8 word \<Rightarrow> (go_error option \<times> ioctl_arg) \<times> event list" where
  "syscallU8 w dev op arg = syscall w dev op (ArgU8 arg)"

definition syscallU32 :: "world \<Rightarrow> Device \<Rightarrow> go_uint \<Rightarrow> 32 word \<Rightarrow> (go_error option \<times> ioctl_arg) \<times> event list" where
  "syscallU32 w dev op arg = syscall w dev op (ArgU32 arg)"

text \<open>
  \<open>func (dev *Device) Transfer(snd, rcv []byte) error\<close>. After the length check the
  chip-select, when there is one, is written \<open>true\<close> and the write of \<open>false\<close> is deferred:
  it runs when the function leaves, by return or by panic. \<open>&snd[0]\<close> and \<open>&rcv[0]\<close> are
  index expressions: on an empty slice they panic. No field of \<open>*dev\<close> is assigned by any
  method, so the receiver is a value here. The parameters \<open>snd\<close> and \<open>rcv\<close> are written
  \<open>sndb\<close> and \<open>rcvb\<close>.
\<close>

definition cs_write :: "Device \<Rightarrow> bool \<Rightarrow> event list" where
  "cs_write dev v = (case cs dev of None \<Rightarrow> [] | Some p \<Rightarrow> [CsWrite p v])"

definition index_panic :: string where
  "index_panic = ''runtime error: index out of range [0] with length 0''"

definition Transfer :: "world \<Rightarrow> Device \<Rightarrow> byte_slice \<Rightarrow> byte_slice \<Rightarrow> go_error option outcome \<times> event list" where
  "Transfer w dev sndb rcvb =
     (if length (elems sndb) \<noteq> length (elems rcvb)
      then (Returns (Some (LengthMismatchError (go_len sndb) (go_len rcvb))), [])
      else if elems sndb = [] then (Panics index_panic, cs_write dev True @ cs_write dev False)
      else if elems rcvb = [] then (Panics index_panic, cs_write dev True @ cs_write dev False)
      else
        (let sndAddr = base sndb;
             rcvAddr = base rcvb;
             tr = \<lparr>tx_buf = sndAddr, rx_buf = rcvAddr, len = ucast (go_len sndb),
                   speed_hz = ucast (speed dev), delay_usecs = 0, bits_per_word = 8,
                   cs_change = 0, tx_nbits = 0, rx_nbits = 0, pad = 0\<rparr>
         in case syscall w dev (spi_IOC_MESSAGE 1) (ArgTransfer tr) of
              ((err, _), evs) \<Rightarrow> (Returns err, cs_write dev True @ evs @ cs_write dev False)))"


text \<open>
  \<open>func Open(spiDevice string, speed int, customCS int) (*Device, error)\<close> of spi.go.
  The lock is taken before \<open>customCS\<close> is looked at; a Go \<open>switch\<close> does not fall through,
  so the \<open>nil\<close> case with a non-zero \<open>customCS\<close> leaves the switch and reaches \<open>gpio.Output\<close>.
  The results of \<open>unix.Close\<close> are discarded by the code.
\<close>

definition Open :: "world \<Rightarrow> string \<Rightarrow> go_int \<Rightarrow> go_int \<Rightarrow> (go_error + Device) \<times> event list" where
  "Open w spiDevice speedv customCS =
     (case sys_open w spiDevice of
        Inl err \<Rightarrow> (Inl (OpenError spiDevice (Errno err)), [SysOpen spiDevice])
      | Inr f \<Rightarrow>
          (case sys_flock w f of
             None \<Rightarrow>
               if customCS = 0
               then (Inr \<lparr>fd = f, speed = speedv, cs = None\<rparr>, [SysOpen spiDevice, SysFlock f])
               else
                 (case gpio_Output w customCS True False of
                    Inl err \<Rightarrow>
                      (Inl (ChipSelectError customCS err),
                       [SysOpen spiDevice, SysFlock f, GpioOutput customCS True False, SysClose f])
                  | Inr pin \<Rightarrow>
                      (Inr \<lparr>fd = f, speed = speedv, cs = Some pin\<rparr>,
                       [SysOpen spiDevice, SysFlock f, GpioOutput customCS True False]))
           | Some err \<Rightarrow>
               if err = EWOULDBLOCK
               then (Inl (DeviceBusyError spiDevice), [SysOpen spiDevice, SysFlock f, SysClose f])
               else (Inl (OpenError spiDevice (Errno err)),
                     [SysOpen spiDevice, SysFlock f, SysClose f])))"

text \<open>\<open>SetBitsPerWord(n int)\<close> and \<open>SetMaxSpeed(n int)\<close> of spi.go.\<close>

definition SetBitsPerWord :: "world \<Rightarrow> Device \<Rightarrow> go_int \<Rightarrow> go_error option \<times> event list" where
  "SetBitsPerWord w dev n =
     (let bits = (ucast n :: 8 word)
      in case syscallU8 w dev spi_IOC_WR_BITS_PER_WORD bits of ((err, _), evs) \<Rightarrow> (err, evs))"

definition SetMaxSpeed :: "world \<Rightarrow> Device \<Rightarrow> go_int \<Rightarrow> go_error option \<times> event list" where
  "SetMaxSpeed w dev n =
     (let speedv = (ucast n :: 32 word)
      in case syscallU32 w dev spi_IOC_WR_MAX_SPEED_HZ speedv of ((err, _), evs) \<Rightarrow> (err, evs))"

section \<open>Earlier versions of spi.go\<close>

text \<open>
  \<open>Open\<close> as in the version that follows the codec declarations (it takes the lock only
  when \<open>customCS\<close> is zero).
\<close>

definition Open_part_000 :: "world \<Rightarrow> string \<Rightarrow> go_int \<Rightarrow> go_int \<Rightarrow> (go_error + Device) \<times> event list" where
  "Open_part_000 w spiDevice speedv customCS =
     (case sys_open w spiDevice of
        Inl err \<Rightarrow> (Inl (OpenErrorV spiDevice (Errno err)), [SysOpen spiDevice])
      | Inr f \<Rightarrow>
          if customCS = 0
          then
            (case sys_flock w f of
               None \<Rightarrow> (Inr \<lparr>fd = f, speed = speedv, cs = None\<rparr>, [SysOpen spiDevice, SysFlock f])
             | Some err \<Rightarrow>
                 if err = EWOULDBLOCK
                 then (Inl (DeviceBusyError spiDevice), [SysOpen spiDevice, SysFlock f, SysClose f])
                 else (Inl (OpenErrorV spiDevice (Errno err)),
                       [SysOpen spiDevice, SysFlock f, SysClose f]))
          else
            (case gpio_Output w customCS True False of
               Inl err \<Rightarrow>
                 (Inl (ChipSelectErrorV customCS err),
                  [SysOpen spiDevice, GpioOutput customCS True False, SysClose f])
             | Inr pin \<Rightarrow>
                 (Inr \<lparr>fd = f, speed = speedv, cs = Some pin\<rparr>,
                  [SysOpen spiDevice, GpioOutput customCS True False])))"

text \<open>
  \<open>func (dev *Device) Read(buf []byte) error\<close>:
  \<^verbatim>\<open>for off := 0; off < len(buf); { n, err := unix.Read(dev.fd, buf[off:]); if err != nil { return err }; off += n }\<close>
  The loop has no bound of its own, so it is a partial function: \<open>None\<close> is a loop that
  never ends. Its state is the number of reads made so far, \<open>off\<close>, the buffer and the log.
  A read that succeeds copies \<open>n\<close> bytes to \<open>buf[off:]\<close>, with \<open>n\<close> at most the length of that
  slice.
\<close>

partial_function (option) Read_loop ::
  "world \<Rightarrow> go_int \<Rightarrow> nat \<Rightarrow> nat \<Rightarrow> byte list \<Rightarrow> event list \<Rightarrow> (go_error option \<times> byte list \<times> event list) option" where
  "Read_loop w f k off buf evs =
     (if off < length buf
      then
        (case sys_read w f k of
           Inl err \<Rightarrow> Some (Some (Errno err), buf, evs @ [SysRead f (length buf - off) (Inl err)])
         | Inr bs \<Rightarrow>
             (let n = min (length bs) (length buf - off)
              in Read_loop w f (Suc k) (off + n)
                   (take off buf @ take n bs @ drop (off + n) buf)
                   (evs @ [SysRead f (length buf - off) (Inr n)])))
      else Some (None, buf, evs))"

declare Read_loop.simps [code]

text \<open>The chip-select is written before the loop; the deferred write runs when the loop is left.\<close>

definition Read :: "world \<Rightarrow> Device \<Rightarrow> byte list \<Rightarrow> (go_error option \<times> byte list \<times> event list) option" where
  "Read w dev buf =
     (case Read_loop w (fd dev) 0 0 buf (cs_write dev True) of
        None \<Rightarrow> None
      | Some (err, buf', evs) \<Rightarrow> Some (err, buf', evs @ cs_write dev False))"

section \<open>Reading a log\<close>

text \<open>The level of the chip-select line after a log, from the level before it.\<close>

fun cs_level :: "bool \<Rightarrow> event list \<Rightarrow> bool" where
  "cs_level lvl [] = lvl"
| "cs_level lvl (e # es) = (case e of CsWrite p v \<Rightarrow> cs_level v es | _ \<Rightarrow> cs_level lvl es)"

text \<open>Every ioctl of the log is made while the chip-select is asserted.\<close>

fun ioctl_asserted :: "bool \<Rightarrow> event list \<Rightarrow> bool" where
  "ioctl_asserted lvl [] = True"
| "ioctl_asserted lvl (e # es) =
     (case e of
        CsWrite p v \<Rightarrow> ioctl_asserted v es
      | SysIoctl f op a \<Rightarrow> lvl \<and> ioctl_asserted lvl es
      | _ \<Rightarrow> ioctl_asserted lvl es)"

text \<open>The request codes of the ioctls of a log, and the transfer descriptors passed to them.\<close>

fun ioctl_ops :: "event list \<Rightarrow> go_uint list" where
  "ioctl_ops [] = []"
| "ioctl_ops (e # es) = (case e of SysIoctl f op a \<Rightarrow> op # ioctl_ops es | _ \<Rightarrow> ioctl_ops es)"

fun descriptors :: "event list \<Rightarrow> spi_ioc_transfer list" where
  "descriptors [] = []"
| "descriptors (e # es) =
     (case e of SysIoctl f op (ArgTransfer tr) \<Rightarrow> tr # descriptors es | _ \<Rightarrow> descriptors es)"

text \<open>The number of bytes the reads of a log returned, and the number of reads.\<close>

fun bytes_read :: "event list \<Rightarrow> nat" where
  "bytes_read [] = 0"
| "bytes_read (e # es) = (case e of SysRead f m (Inr n) \<Rightarrow> n + bytes_read es | _ \<Rightarrow> bytes_read es)"

fun locks :: "event list \<Rightarrow> go_int list" where
  "locks [] = []"
| "locks (e # es) = (case e of SysFlock f \<Rightarrow> f # locks es | _ \<Rightarrow> locks es)"

text \<open>The reads of a log, in order.\<close>

fun read_events :: "event list \<Rightarrow> event list" where
  "read_events [] = []"
| "read_events (e # es) = (case e of SysRead f m r \<Rightarrow> e # read_events es | _ \<Rightarrow> read_events es)"

text \<open>The bytes the device hands over in its answers number \<open>k\<close> to \<open>j - 1\<close>, end to end.\<close>

definition chunks :: "world \<Rightarrow> go_int \<Rightarrow> nat \<Rightarrow> nat \<Rightarrow> byte list" where
  "chunks w f k j = concat (map (\<lambda>i. case sys_read w f i of Inl e \<Rightarrow> [] | Inr bs \<Rightarrow> bs) [k..<j])"

text \<open>
  What a finished run of the loop of \<open>Read\<close>, started at read \<open>k\<close> and offset \<open>off\<close>, has done:
  on success it has taken exactly the missing bytes, and they are the device's
  answers laid end to end behind the first \<open>off\<close> bytes; on failure the error is the errno
  of the last read made and fewer bytes than asked for were taken.
\<close>

abbreviation Read_loop_post ::
  "world \<Rightarrow> go_int \<Rightarrow> nat \<Rightarrow> nat \<Rightarrow> byte list \<Rightarrow> event list \<Rightarrow> (go_error option \<times> byte list \<times> event list) \<Rightarrow> bool" where
  "Read_loop_post w f k off buf evs r \<equiv>
     (case r of (err, buf', evs') \<Rightarrow>
        length buf' = length buf \<and>
        (case err of
           None \<Rightarrow>
             bytes_read evs' = bytes_read evs + (length buf - off) \<and>
             (\<exists>j\<ge>k. buf' = take off buf @ take (length buf - off) (chunks w f k j))
         | Some e \<Rightarrow>
             (\<exists>x m. e = Errno x \<and> (\<exists>j\<ge>k. sys_read w f j = Inl x) \<and> read_events evs' \<noteq> [] \<and>
                last (read_events evs') = SysRead f m (Inl x)) \<and>
             bytes_read evs' < bytes_read evs + (length buf - off)))"

section \<open>The layout of the transfer descriptor\<close>

text \<open>
  The fields of \<open>spi_ioc_transfer\<close> in the order of the declaration, each with its width
  in bits, taken from the type of the field.
\<close>

definition spi_ioc_transfer_fields :: "spi_ioc_transfer \<Rightarrow> (string \<times> nat) list" where
  "spi_ioc_transfer_fields tr =
     [(''tx_buf'', size (tx_buf tr)), (''rx_buf'', size (rx_buf tr)),
      (''len'', size (len tr)), (''speed_hz'', size (speed_hz tr)),
      (''delay_usecs'', size (delay_usecs tr)),
      (''bits_per_word'', size (bits_per_word tr)), (''cs_change'', size (cs_change tr)),
      (''tx_nbits'', size (tx_nbits tr)), (''rx_nbits'', size (rx_nbits tr)),
      (''pad'', size (pad tr))]"

text \<open>
  The widths the specification lists: two 64-bit addresses, two 32-bit fields, a 16-bit
  delay, and three 8-bit fields.
\<close>

definition spec_field_widths :: "nat list" where
  "spec_field_widths = [64, 64, 32, 32, 16, 8, 8, 8]"

section \<open>Worlds for the examples\<close>

text \<open>
  \<open>quiet_world\<close>: every call succeeds; the device path opens as descriptor 3, the pin is
  claimed as handle 1, and reads give three bytes at a time. \<open>failing_world\<close>: the ioctl
  fails with errno 5. \<open>busy_world\<close>: the lock is held by someone else. \<open>denied_world\<close>:
  the lock fails with errno 13. \<open>no_pin_world\<close>: the pin cannot be claimed.
\<close>

definition quiet_world :: world where
  "quiet_world =
     \<lparr>sys_open = (\<lambda>path. Inr 3), sys_flock = (\<lambda>f. None),
      gpio_Output = (\<lambda>pin activeLow initial. Inr 1),
      sys_ioctl = (\<lambda>f op a. (0, a)),
      sys_read = (\<lambda>f k. if k = 0 then Inr [1, 2, 3] else Inr [4, 5, 6])\<rparr>"

definition failing_world :: world where
  "failing_world = quiet_world\<lparr>sys_ioctl := (\<lambda>f op a. (5, a))\<rparr>"

definition busy_world :: world where
  "busy_world = quiet_world\<lparr>sys_flock := (\<lambda>f. Some EWOULDBLOCK)\<rparr>"

definition denied_world :: world where
  "denied_world = quiet_world\<lparr>sys_flock := (\<lambda>f. Some 13)\<rparr>"

definition no_pin_world :: world where
  "no_pin_world = quiet_world\<lparr>gpio_Output := (\<lambda>pin activeLow initial. Inl (External ''export failed''))\<rparr>"

section \<open>Transfer: the length check\<close>

text \<open>
  C1. When the two buffers differ in length, Transfer returns the length-mismatch error
  and has made no call at all: no ioctl, no write to the chip-select.
\<close>

theorem Transfer_length_mismatch:
  "length (elems sndb) \<noteq> length (elems rcvb) \<Longrightarrow>
     Transfer w dev sndb rcvb = (Returns (Some (LengthMismatchError (go_len sndb) (go_len rcvb))), [])"
  by (simp add: Transfer_def)

theorem Transfer_length_mismatch_witness:
  "length (elems \<lparr>base = 4096, elems = [1, 2]\<rparr>) \<noteq> length (elems \<lparr>base = 8192, elems = [0]\<rparr>) \<and>
   Transfer failing_world \<lparr>fd = 3, speed = 1000000, cs = Some 1\<rparr>
       \<lparr>base = 4096, elems = [1, 2]\<rparr> \<lparr>base = 8192, elems = [0]\<rparr>
     = (Returns (Some (LengthMismatchError 2 1)), [])"
  using Transfer_length_mismatch [of "\<lparr>base = 4096, elems = [1, 2]\<rparr>" "\<lparr>base = 8192, elems = [0]\<rparr>"
      failing_world "\<lparr>fd = 3, speed = 1000000, cs = Some 1\<rparr>"]
  by (simp add: go_len_def)


section \<open>Transfer: the chip-select bracket\<close>

lemma cs_write_Some: "cs dev = Some p \<Longrightarrow> cs_write dev v = [CsWrite p v]"
  by (simp add: cs_write_def)

text \<open>
  C2. On a device with a chip-select, every ioctl of Transfer is made while the
  chip-select is asserted and the line is deasserted when Transfer is left, whatever the
  ioctl answers. For buffers of equal, non-zero length the log is exactly: write true, the
  ioctl, write false, and the result is the ioctl's. (Unequal lengths make no call; empty
  buffers panic between the two writes.)
\<close>

theorem Transfer_chip_select_bracket:
  assumes "cs dev = Some p"
  shows "ioctl_asserted False (snd (Transfer w dev sndb rcvb)) \<and>
         \<not> cs_level False (snd (Transfer w dev sndb rcvb)) \<and>
         (if length (elems sndb) \<noteq> length (elems rcvb) then snd (Transfer w dev sndb rcvb) = []
          else if elems sndb = []
          then Transfer w dev sndb rcvb = (Panics index_panic, [CsWrite p True, CsWrite p False])
          else Transfer w dev sndb rcvb =
                 (Returns (fst (fst (syscall w dev (spi_IOC_MESSAGE 1)
                    (ArgTransfer \<lparr>tx_buf = base sndb, rx_buf = base rcvb, len = ucast (go_len sndb),
                       speed_hz = ucast (speed dev), delay_usecs = 0, bits_per_word = 8,
                       cs_change = 0, tx_nbits = 0, rx_nbits = 0, pad = 0\<rparr>)))),
                  [CsWrite p True,
                   SysIoctl (fd dev) (spi_IOC_MESSAGE 1)
                    (ArgTransfer \<lparr>tx_buf = base sndb, rx_buf = base rcvb, len = ucast (go_len sndb),
                       speed_hz = ucast (speed dev), delay_usecs = 0, bits_per_word = 8,
                       cs_change = 0, tx_nbits = 0, rx_nbits = 0, pad = 0\<rparr>),
                   CsWrite p False]))"
  using assms
  by (auto simp: Transfer_def syscall_def cs_write_Some Let_def split: prod.splits)

theorem Transfer_chip_select_bracket_witness:
  "cs \<lparr>fd = 3, speed = 1000000, cs = Some 1\<rparr> = Some 1 \<and>
   Transfer failing_world \<lparr>fd = 3, speed = 1000000, cs = Some 1\<rparr>
       \<lparr>base = 4096, elems = [1, 2]\<rparr> \<lparr>base = 8192, elems = [0, 0]\<rparr>
     = (Returns (Some (Errno 5)),
        [CsWrite 1 True,
         SysIoctl 3 0x40206B00
           (ArgTransfer \<lparr>tx_buf = 4096, rx_buf = 8192, len = 2, speed_hz = 1000000,
              delay_usecs = 0, bits_per_word = 8, cs_change = 0, tx_nbits = 0, rx_nbits = 0, pad = 0\<rparr>),
         CsWrite 1 False]) \<and>
   ioctl_asserted False (snd (Transfer failing_world \<lparr>fd = 3, speed = 1000000, cs = Some 1\<rparr>
       \<lparr>base = 4096, elems = [1, 2]\<rparr> \<lparr>base = 8192, elems = [0, 0]\<rparr>)) \<and>
   \<not> cs_level False (snd (Transfer failing_world \<lparr>fd = 3, speed = 1000000, cs = Some 1\<rparr>
       \<lparr>base = 4096, elems = [1, 2]\<rparr> \<lparr>base = 8192, elems = [0, 0]\<rparr>))"
  using Transfer_chip_select_bracket [of "\<lparr>fd = 3, speed = 1000000, cs = Some 1\<rparr>" 1 failing_world
      "\<lparr>base = 4096, elems = [1, 2]\<rparr>" "\<lparr>base = 8192, elems = [0, 0]\<rparr>"]
  by (simp add: Transfer_def syscall_def cs_write_def failing_world_def quiet_world_def
      go_len_def spi_IOC_MESSAGE_def spi_IOC_MESSAGE_base_def spi_IOC_MESSAGE_incr_def)

section \<open>Transfer: the clock speed of the descriptor\<close>

text \<open>
  C3, as the specification has it, fails: a device opened at 1000000 Hz still transfers
  at 1000000 Hz after \<open>SetMaxSpeed(500000)\<close> has succeeded.
\<close>

theorem SetMaxSpeed_Transfer_counterexample:
  "fst (Open quiet_world ''/dev/spidev5.1'' 1000000 0) = Inr \<lparr>fd = 3, speed = 1000000, cs = None\<rparr> \<and>
   fst (SetMaxSpeed quiet_world \<lparr>fd = 3, speed = 1000000, cs = None\<rparr> 500000) = None \<and>
   map speed_hz (descriptors (snd (Transfer quiet_world \<lparr>fd = 3, speed = 1000000, cs = None\<rparr>
       \<lparr>base = 4096, elems = [1, 2]\<rparr> \<lparr>base = 8192, elems = [0, 0]\<rparr>))) = [1000000] \<and>
   (1000000 :: 32 word) \<noteq> ucast (500000 :: go_int)"
  by (simp add: Open_def SetMaxSpeed_def syscallU32_def Transfer_def syscall_def cs_write_def quiet_world_def
      go_len_def)

text \<open>
  C3, amended. The descriptor's \<open>speed_hz\<close> is the low 32 bits of the device's \<open>speed\<close>
  field; \<open>Open\<close> sets that field to its \<open>speed\<close> argument; \<open>SetMaxSpeed(n)\<close> makes one ioctl
  that writes the low 32 bits of \<open>n\<close> to the driver and leaves the device as it was.
\<close>

theorem Transfer_speed_from_Open:
  "map speed_hz (descriptors (snd (Transfer w dev sndb rcvb)))
     = (if length (elems sndb) = length (elems rcvb) \<and> elems sndb \<noteq> [] then [ucast (speed dev)] else []) \<and>
   snd (SetMaxSpeed w dev n) = [SysIoctl (fd dev) spi_IOC_WR_MAX_SPEED_HZ (ArgU32 (ucast n))] \<and>
   (case fst (Open w path s c) of Inl e \<Rightarrow> True | Inr d \<Rightarrow> speed d = s)"
  by (auto simp: Transfer_def syscall_def cs_write_def Let_def SetMaxSpeed_def syscallU32_def Open_def
      split: prod.splits option.splits sum.splits)

theorem Transfer_speed_from_Open_witness:
  "map speed_hz (descriptors (snd (Transfer quiet_world \<lparr>fd = 3, speed = 1000000, cs = None\<rparr>
       \<lparr>base = 4096, elems = [1, 2]\<rparr> \<lparr>base = 8192, elems = [0, 0]\<rparr>))) = [1000000] \<and>
   snd (SetMaxSpeed quiet_world \<lparr>fd = 3, speed = 1000000, cs = None\<rparr> 500000)
     = [SysIoctl 3 0x40046B04 (ArgU32 500000)] \<and>
   fst (Open quiet_world ''/dev/spidev5.1'' 1000000 0) = Inr \<lparr>fd = 3, speed = 1000000, cs = None\<rparr>"
  using Transfer_speed_from_Open [where w = quiet_world and dev = "\<lparr>fd = 3, speed = 1000000, cs = None\<rparr>"
      and sndb = "\<lparr>base = 4096, elems = [1, 2]\<rparr>" and rcvb = "\<lparr>base = 8192, elems = [0, 0]\<rparr>"
      and n = 500000 and path = "''/dev/spidev5.1''" and s = 1000000 and c = 0]
  by (simp add: Open_def quiet_world_def spi_IOC_WR_MAX_SPEED_HZ_def)

section \<open>Transfer: empty buffers\<close>

text \<open>
  C4. Two empty buffers have equal lengths, so the length check passes; the chip-select,
  if any, is written; then \<open>&snd[0]\<close> panics and the deferred write runs. No error value is
  returned and no ioctl is made.
\<close>

theorem Transfer_empty_buffers_panic:
  "Transfer w dev \<lparr>base = a, elems = []\<rparr> \<lparr>base = b, elems = []\<rparr>
     = (Panics index_panic, cs_write dev True @ cs_write dev False)"
  by (simp add: Transfer_def)

section \<open>Open: the lock and the custom chip-select\<close>

text \<open>
  C5, as the specification has it, fails for \<open>Open\<close> of spi.go: with pin 17 requested the
  lock is still taken on the descriptor.
\<close>

theorem Open_custom_cs_counterexample:
  "(17 :: go_int) \<noteq> 0 \<and> locks (snd (Open quiet_world ''/dev/spidev5.1'' 1000000 17)) = [3]"
  by (simp add: Open_def quiet_world_def)

text \<open>
  C5, amended. With a custom chip-select requested and the path opened, \<open>Open\<close> of spi.go
  takes the lock first; only when the lock is granted does it call
  \<open>gpio.Output(customCS, true, false)\<close>, and it closes the descriptor when the lock or the pin
  is refused. The earlier version of \<open>Open\<close> takes no lock in that case and goes to
  \<open>gpio.Output\<close> directly.
\<close>

theorem Open_custom_cs:
  assumes "customCS \<noteq> 0" and "sys_open w path = Inr f"
  shows "snd (Open w path s customCS) =
           [SysOpen path, SysFlock f] @
           (case sys_flock w f of
              Some err \<Rightarrow> [SysClose f]
            | None \<Rightarrow> GpioOutput customCS True False #
                (case gpio_Output w customCS True False of Inl e \<Rightarrow> [SysClose f] | Inr pin \<Rightarrow> [])) \<and>
         snd (Open_part_000 w path s customCS) =
           [SysOpen path, GpioOutput customCS True False] @
           (case gpio_Output w customCS True False of Inl e \<Rightarrow> [SysClose f] | Inr pin \<Rightarrow> [])"
  using assms by (auto simp: Open_def Open_part_000_def split: option.splits sum.splits)

theorem Open_custom_cs_witness:
  "(17 :: go_int) \<noteq> 0 \<and> sys_open quiet_world ''/dev/spidev5.1'' = Inr 3 \<and>
   snd (Open quiet_world ''/dev/spidev5.1'' 1000000 17)
     = [SysOpen ''/dev/spidev5.1'', SysFlock 3, GpioOutput 17 True False] \<and>
   snd (Open_part_000 quiet_world ''/dev/spidev5.1'' 1000000 17)
     = [SysOpen ''/dev/spidev5.1'', GpioOutput 17 True False]"
  using Open_custom_cs [of 17 quiet_world "''/dev/spidev5.1''" 3 1000000]
  by (simp add: quiet_world_def)

section \<open>Open: failure after the path is opened\<close>

text \<open>
  C6. When the path has been opened and \<open>Open\<close> fails, the last call made is the close of
  that descriptor, and it is made once. The error is the device-in-use error exactly when
  the lock answered \<open>EWOULDBLOCK\<close>; any other lock failure gives the wrapped errno, and a
  refused pin gives the chip-select error.
\<close>

theorem Open_failure_closes:
  assumes "sys_open w path = Inr f" and "fst (Open w path s customCS) = Inl e"
  shows "last (snd (Open w path s customCS)) = SysClose f \<and>
         length (filter (\<lambda>ev. ev = SysClose f) (snd (Open w path s customCS))) = 1 \<and>
         (case sys_flock w f of
            Some err \<Rightarrow> e = (if err = EWOULDBLOCK then DeviceBusyError path else OpenError path (Errno err))
          | None \<Rightarrow> \<exists>g. gpio_Output w customCS True False = Inl g \<and> e = ChipSelectError customCS g) \<and>
         (e = DeviceBusyError path) = (sys_flock w f = Some EWOULDBLOCK)"
  using assms by (auto simp: Open_def split: option.splits sum.splits if_splits)

theorem Open_failure_closes_witness:
  "sys_open busy_world ''/dev/spidev5.1'' = Inr 3 \<and>
   Open busy_world ''/dev/spidev5.1'' 1000000 0
     = (Inl (DeviceBusyError ''/dev/spidev5.1''), [SysOpen ''/dev/spidev5.1'', SysFlock 3, SysClose 3]) \<and>
   last (snd (Open busy_world ''/dev/spidev5.1'' 1000000 0)) = SysClose 3 \<and>
   Open denied_world ''/dev/spidev5.1'' 1000000 0
     = (Inl (OpenError ''/dev/spidev5.1'' (Errno 13)), [SysOpen ''/dev/spidev5.1'', SysFlock 3, SysClose 3]) \<and>
   Open no_pin_world ''/dev/spidev5.1'' 1000000 17
     = (Inl (ChipSelectError 17 (External ''export failed'')),
        [SysOpen ''/dev/spidev5.1'', SysFlock 3, GpioOutput 17 True False, SysClose 3])"
  using Open_failure_closes [of busy_world "''/dev/spidev5.1''" 3 1000000 0 "DeviceBusyError ''/dev/spidev5.1''"]
    Open_failure_closes [of denied_world "''/dev/spidev5.1''" 3 1000000 0 "OpenError ''/dev/spidev5.1'' (Errno 13)"]
    Open_failure_closes [of no_pin_world "''/dev/spidev5.1''" 3 1000000 17
      "ChipSelectError 17 (External ''export failed'')"]
  by (simp add: Open_def busy_world_def denied_world_def no_pin_world_def quiet_world_def EWOULDBLOCK_def)

section \<open>The fields of the transfer descriptor\<close>

text \<open>
  C7, as the specification has it, fails: the declaration has ten fields, not eight, and
  their widths are not the eight the specification lists.
\<close>

theorem transfer_layout_counterexample:
  "length (spi_ioc_transfer_fields \<lparr>tx_buf = 0, rx_buf = 0, len = 0, speed_hz = 0, delay_usecs = 0,
      bits_per_word = 0, cs_change = 0, tx_nbits = 0, rx_nbits = 0, pad = 0\<rparr>) = 10 \<and>
   length spec_field_widths = 8 \<and>
   map snd (spi_ioc_transfer_fields \<lparr>tx_buf = 0, rx_buf = 0, len = 0, speed_hz = 0, delay_usecs = 0,
      bits_per_word = 0, cs_change = 0, tx_nbits = 0, rx_nbits = 0, pad = 0\<rparr>) \<noteq> spec_field_widths"
  by (simp add: spi_ioc_transfer_fields_def spec_field_widths_def)

text \<open>
  C7, amended. The descriptor has, in order: two 64-bit buffer addresses, the 32-bit length
  and speed, the 16-bit delay, four 8-bit fields (bits per word, chip-select change, and
  the transmit and receive line counts) and a 16-bit pad: 32 bytes in all.
\<close>

theorem transfer_layout:
  "map snd (spi_ioc_transfer_fields tr) = [64, 64, 32, 32, 16, 8, 8, 8, 8, 16] \<and>
   map fst (spi_ioc_transfer_fields tr) =
     [''tx_buf'', ''rx_buf'', ''len'', ''speed_hz'', ''delay_usecs'', ''bits_per_word'', ''cs_change'',
      ''tx_nbits'', ''rx_nbits'', ''pad''] \<and>
   sum_list (map snd (spi_ioc_transfer_fields tr)) = 8 * 32"
  by (simp add: spi_ioc_transfer_fields_def word_size)

section \<open>The request code of a transfer\<close>

lemma spi_IOC_MESSAGE_unat:
  "unat n < 2 ^ 42 \<Longrightarrow> unat (spi_IOC_MESSAGE n) = 0x40006B00 + unat n * 0x200000"
  by (simp add: spi_IOC_MESSAGE_def spi_IOC_MESSAGE_base_def spi_IOC_MESSAGE_incr_def unat_word_ariths)

lemma ioctl_ops_append: "ioctl_ops (xs @ ys) = ioctl_ops xs @ ioctl_ops ys"
  by (induction xs) (auto split: event.splits)

lemma ioctl_ops_cs_write: "ioctl_ops (cs_write dev v) = []"
  by (simp add: cs_write_def split: option.splits)

text \<open>
  C8. The request code for \<open>n\<close> segments is \<open>0x40006B00 + n * 0x200000\<close> in Go's unsigned
  arithmetic, which is the same number over the integers as long as nothing wraps; for
  one segment it is \<open>0x40206B00\<close>; and the only ioctl Transfer ever makes carries that code.
\<close>

theorem spi_IOC_MESSAGE_code:
  "spi_IOC_MESSAGE n = 0x40006B00 + n * 0x200000 \<and>
   (unat n < 2 ^ 42 \<longrightarrow> unat (spi_IOC_MESSAGE n) = 0x40006B00 + unat n * 0x200000) \<and>
   spi_IOC_MESSAGE 1 = 0x40206B00 \<and>
   ioctl_ops (snd (Transfer w dev sndb rcvb))
     = (if length (elems sndb) = length (elems rcvb) \<and> elems sndb \<noteq> [] then [0x40206B00] else [])"
proof -
  have one: "spi_IOC_MESSAGE 1 = 0x40206B00"
    by (simp add: spi_IOC_MESSAGE_def spi_IOC_MESSAGE_base_def spi_IOC_MESSAGE_incr_def)
  have "ioctl_ops (snd (Transfer w dev sndb rcvb))
     = (if length (elems sndb) = length (elems rcvb) \<and> elems sndb \<noteq> [] then [0x40206B00] else [])"
    by (auto simp: Transfer_def syscall_def Let_def ioctl_ops_cs_write ioctl_ops_append one
        split: prod.splits)
  then show ?thesis
    using spi_IOC_MESSAGE_unat [of n] one
    by (simp add: spi_IOC_MESSAGE_def spi_IOC_MESSAGE_base_def spi_IOC_MESSAGE_incr_def)
qed

theorem spi_IOC_MESSAGE_code_witness:
  "unat (1 :: 64 word) < 2 ^ 42 \<and> unat (spi_IOC_MESSAGE 1) = 0x40206B00 \<and>
   unat (511 :: 64 word) < 2 ^ 42 \<and> spi_IOC_MESSAGE 511 = 0x7FE06B00 \<and>
   ioctl_ops (snd (Transfer quiet_world \<lparr>fd = 3, speed = 1000000, cs = Some 1\<rparr>
       \<lparr>base = 4096, elems = [1, 2]\<rparr> \<lparr>base = 8192, elems = [0, 0]\<rparr>)) = [0x40206B00]"
  using spi_IOC_MESSAGE_code [of 1 quiet_world "\<lparr>fd = 3, speed = 1000000, cs = Some 1\<rparr>"
      "\<lparr>base = 4096, elems = [1, 2]\<rparr>" "\<lparr>base = 8192, elems = [0, 0]\<rparr>"]
    spi_IOC_MESSAGE_code [of 511 quiet_world "\<lparr>fd = 3, speed = 1000000, cs = Some 1\<rparr>"
      "\<lparr>base = 4096, elems = [1, 2]\<rparr>" "\<lparr>base = 8192, elems = [0, 0]\<rparr>"]
  by simp

section \<open>Read\<close>

lemma bytes_read_append: "bytes_read (xs @ ys) = bytes_read xs + bytes_read ys"
  by (induction xs) (auto split: event.splits sum.splits)

lemma read_events_append: "read_events (xs @ ys) = read_events xs @ read_events ys"
  by (induction xs) (auto split: event.splits)

lemma chunks_step:
  assumes "k < j" and "sys_read w f k = Inr bs"
  shows "chunks w f k j = bs @ chunks w f (Suc k) j"
  using assms by (simp add: chunks_def upt_conv_Cons)

lemma take_chunk:
  assumes "n = min (length bs) left"
  shows "take left (bs @ rest) = take n bs @ take (left - n) rest"
proof (cases "length bs \<le> left")
  case True
  with assms show ?thesis by simp
next
  case False
  with assms show ?thesis by (simp add: min_def)
qed

lemma Read_loop_result:
  assumes "Read_loop w f k off buf evs = Some r"
  shows "off \<le> length buf \<longrightarrow> Read_loop_post w f k off buf evs r"
proof (rule Read_loop.raw_induct
    [where P = "\<lambda>w f k off buf evs r. off \<le> length buf \<longrightarrow> Read_loop_post w f k off buf evs r",
     OF _ assms])
  fix loop :: "world \<Rightarrow> go_int \<Rightarrow> nat \<Rightarrow> nat \<Rightarrow> byte list \<Rightarrow> event list \<Rightarrow> (go_error option \<times> byte list \<times> event list) option"
  fix w f k off buf evs r
  assume 1: "\<And>w f k off buf evs r. loop w f k off buf evs = Some r \<Longrightarrow>
               off \<le> length buf \<longrightarrow> Read_loop_post w f k off buf evs r"
    "(if off < length buf
      then
        (case sys_read w f k of
           Inl err \<Rightarrow> Some (Some (Errno err), buf, evs @ [SysRead f (length buf - off) (Inl err)])
         | Inr bs \<Rightarrow>
             (let n = min (length bs) (length buf - off)
              in loop w f (Suc k) (off + n)
                   (take off buf @ take n bs @ drop (off + n) buf)
                   (evs @ [SysRead f (length buf - off) (Inr n)])))
      else Some (None, buf, evs)) = Some r"
  show "off \<le> length buf \<longrightarrow> Read_loop_post w f k off buf evs r"
  proof (cases "off < length buf")
    case False
    with 1(2) have "r = (None, buf, evs)" by simp
    with False show ?thesis by auto
  next
    case lt: True
    show ?thesis
    proof (cases "sys_read w f k")
      case (Inl x)
      with lt 1(2) have "r = (Some (Errno x), buf, evs @ [SysRead f (length buf - off) (Inl x)])"
        by simp
      with lt Inl show ?thesis by (auto simp: bytes_read_append read_events_append)
    next
      case (Inr bs)
      define n where "n = min (length bs) (length buf - off)"
      define buf1 where "buf1 = take off buf @ take n bs @ drop (off + n) buf"
      define evs1 where "evs1 = evs @ [SysRead f (length buf - off) (Inr n)]"
      obtain err buf' evs' where r: "r = (err, buf', evs')"
        by (cases r) auto
      have call: "loop w f (Suc k) (off + n) buf1 evs1 = Some r"
        using 1(2) lt Inr by (simp add: n_def buf1_def evs1_def Let_def)
      have nle: "off + n \<le> length buf"
        using lt by (simp add: n_def)
      have len1: "length buf1 = length buf"
        using nle by (simp add: buf1_def n_def)
      have b1: "bytes_read evs1 = bytes_read evs + n"
        by (simp add: evs1_def bytes_read_append)
      have pre1: "take (off + n) buf1 = take off buf @ take n bs"
        using nle by (simp add: buf1_def n_def)
      have ih: "Read_loop_post w f (Suc k) (off + n) buf1 evs1 (err, buf', evs')"
        using 1(1) [OF call] nle len1 r by simp
      show ?thesis
      proof (cases err)
        case None
        with ih obtain j where j: "Suc k \<le> j"
          and b: "buf' = take (off + n) buf1 @ take (length buf1 - (off + n)) (chunks w f (Suc k) j)"
          by auto
        have "chunks w f k j = bs @ chunks w f (Suc k) j"
          using j Inr by (intro chunks_step) simp_all
        then have "take (length buf - off) (chunks w f k j)
                     = take n bs @ take (length buf - off - n) (chunks w f (Suc k) j)"
          using take_chunk [of n bs "length buf - off" "chunks w f (Suc k) j"] by (simp add: n_def)
        with b pre1 len1 have "buf' = take off buf @ take (length buf - off) (chunks w f k j)"
          by simp
        moreover have "k \<le> j" using j by simp
        ultimately show ?thesis
          using ih None r nle len1 b1 by auto
      next
        case (Some e)
        with ih obtain x m j where e: "e = Errno x" and j: "Suc k \<le> j" "sys_read w f j = Inl x"
          and ev: "read_events evs' \<noteq> []" "last (read_events evs') = SysRead f m (Inl x)"
          by auto
        have kj: "\<exists>j\<ge>k. sys_read w f j = Inl x"
          using j by (intro exI [of _ j]) simp
        have lt': "bytes_read evs' < bytes_read evs + (length buf - off)"
          using ih Some nle len1 b1 by simp
        have "length buf' = length buf"
          using ih len1 by simp
        with e kj ev lt' show ?thesis
          using Some r by auto
      qed
    qed
  qed
qed


lemma Read_loop_terminates:
  assumes pos: "\<forall>k bs. sys_read w f k = Inr bs \<longrightarrow> bs \<noteq> []"
  shows "\<exists>r. Read_loop w f k off buf evs = Some r"
proof (induction "length buf - off" arbitrary: k off buf evs rule: less_induct)
  case less
  show ?case
  proof (cases "off < length buf")
    case False
    then show ?thesis by (subst Read_loop.simps) simp
  next
    case lt: True
    show ?thesis
    proof (cases "sys_read w f k")
      case (Inl x)
      with lt show ?thesis by (subst Read_loop.simps) simp
    next
      case (Inr bs)
      define n where "n = min (length bs) (length buf - off)"
      define buf1 where "buf1 = take off buf @ take n bs @ drop (off + n) buf"
      have "bs \<noteq> []" using pos Inr by blast
      then have npos: "0 < n" using lt by (simp add: n_def)
      have len1: "length buf1 = length buf"
        using lt by (auto simp: buf1_def n_def min_def)
      have "length buf1 - (off + n) < length buf - off"
        using lt npos len1 by simp
      from less [OF this]
      obtain r where r: "Read_loop w f (Suc k) (off + n) buf1 (evs @ [SysRead f (length buf - off) (Inr n)]) = Some r"
        by blast
      have "Read_loop w f k off buf evs
              = Read_loop w f (Suc k) (off + n) buf1 (evs @ [SysRead f (length buf - off) (Inr n)])"
        using lt Inr by (subst Read_loop.simps) (simp add: n_def buf1_def Let_def)
      with r show ?thesis by (intro exI [of _ r]) simp
    qed
  qed
qed

lemma Read_loop_stalls:
  assumes "Read_loop w f k off buf evs = Some r"
  shows "\<not> ((\<forall>j. sys_read w f j = Inr []) \<and> off < length buf)"
proof (rule Read_loop.raw_induct
    [where P = "\<lambda>w f k off buf evs r. \<not> ((\<forall>j. sys_read w f j = Inr []) \<and> off < length buf)",
     OF _ assms])
  fix loop :: "world \<Rightarrow> go_int \<Rightarrow> nat \<Rightarrow> nat \<Rightarrow> byte list \<Rightarrow> event list \<Rightarrow> (go_error option \<times> byte list \<times> event list) option"
  fix w f k off buf evs r
  assume 1: "\<And>w f k off buf evs r. loop w f k off buf evs = Some r \<Longrightarrow>
               \<not> ((\<forall>j. sys_read w f j = Inr []) \<and> off < length buf)"
    "(if off < length buf
      then
        (case sys_read w f k of
           Inl err \<Rightarrow> Some (Some (Errno err), buf, evs @ [SysRead f (length buf - off) (Inl err)])
         | Inr bs \<Rightarrow>
             (let n = min (length bs) (length buf - off)
              in loop w f (Suc k) (off + n)
                   (take off buf @ take n bs @ drop (off + n) buf)
                   (evs @ [SysRead f (length buf - off) (Inr n)])))
      else Some (None, buf, evs)) = Some r"
  show "\<not> ((\<forall>j. sys_read w f j = Inr []) \<and> off < length buf)"
  proof
    assume st: "(\<forall>j. sys_read w f j = Inr []) \<and> off < length buf"
    then have "loop w f (Suc k) off buf (evs @ [SysRead f (length buf - off) (Inr 0)]) = Some r"
      using 1(2) by simp
    from 1(1) [OF this] st show False by simp
  qed
qed

lemma cs_write_reads:
  "bytes_read (cs_write dev v) = 0" "read_events (cs_write dev v) = []"
  by (simp_all add: cs_write_def split: option.splits)


text \<open>
  C9. Whenever \<open>Read\<close> returns, the buffer keeps its length and either the result is
  success, the reads have returned exactly \<open>len(buf)\<close> bytes and the buffer holds the
  device's answers laid end to end, or the result is the errno of a failed read, which is
  the last read made. When every read that succeeds returns at least one byte, \<open>Read\<close>
  does return; when moreover no read fails, it returns success.
\<close>

theorem Read_collects:
  "(\<forall>err buf' evs. Read w dev buf = Some (err, buf', evs) \<longrightarrow>
      length buf' = length buf \<and>
      (case err of
         None \<Rightarrow> bytes_read evs = length buf \<and> (\<exists>j. buf' = take (length buf) (chunks w (fd dev) 0 j))
       | Some e \<Rightarrow>
           (\<exists>x m. e = Errno x \<and> (\<exists>j. sys_read w (fd dev) j = Inl x) \<and> read_events evs \<noteq> [] \<and>
              last (read_events evs) = SysRead (fd dev) m (Inl x)) \<and>
           bytes_read evs < length buf)) \<and>
   ((\<forall>k bs. sys_read w (fd dev) k = Inr bs \<longrightarrow> bs \<noteq> []) \<longrightarrow> (\<exists>r. Read w dev buf = Some r)) \<and>
   ((\<forall>k. \<exists>bs. sys_read w (fd dev) k = Inr bs \<and> bs \<noteq> []) \<longrightarrow>
      (\<exists>buf' evs. Read w dev buf = Some (None, buf', evs) \<and> bytes_read evs = length buf))"
proof -
  have part: "length buf' = length buf \<and>
      (case err of
         None \<Rightarrow> bytes_read evs = length buf \<and> (\<exists>j. buf' = take (length buf) (chunks w (fd dev) 0 j))
       | Some e \<Rightarrow>
           (\<exists>x m. e = Errno x \<and> (\<exists>j. sys_read w (fd dev) j = Inl x) \<and> read_events evs \<noteq> [] \<and>
              last (read_events evs) = SysRead (fd dev) m (Inl x)) \<and>
           bytes_read evs < length buf)"
    if "Read w dev buf = Some (err, buf', evs)" for err buf' evs
  proof -
    from that obtain evs0 where
      loop: "Read_loop w (fd dev) 0 0 buf (cs_write dev True) = Some (err, buf', evs0)"
      and evs: "evs = evs0 @ cs_write dev False"
      by (auto simp: Read_def split: option.splits)
    from Read_loop_result [OF loop]
    have post: "Read_loop_post w (fd dev) 0 0 buf (cs_write dev True) (err, buf', evs0)"
      by simp
    show ?thesis
    proof (cases err)
      case None
      with post evs show ?thesis
        by (auto simp: bytes_read_append read_events_append cs_write_reads)
    next
      case (Some e)
      with post evs show ?thesis
        by (auto simp: bytes_read_append read_events_append cs_write_reads)
    qed
  qed
  have total: "\<exists>r. Read w dev buf = Some r"
    if "\<forall>k bs. sys_read w (fd dev) k = Inr bs \<longrightarrow> bs \<noteq> []"
  proof -
    from Read_loop_terminates [OF that]
    obtain r where "Read_loop w (fd dev) 0 0 buf (cs_write dev True) = Some r"
      by blast
    then show ?thesis
      by (cases r) (simp add: Read_def)
  qed
  have good: "\<exists>buf' evs. Read w dev buf = Some (None, buf', evs) \<and> bytes_read evs = length buf"
    if ok: "\<forall>k. \<exists>bs. sys_read w (fd dev) k = Inr bs \<and> bs \<noteq> []"
  proof -
    have "\<forall>k bs. sys_read w (fd dev) k = Inr bs \<longrightarrow> bs \<noteq> []"
      using ok by (metis sum.inject(2))
    from total [OF this] obtain err buf' evs where r: "Read w dev buf = Some (err, buf', evs)"
      by (metis prod_cases3)
    have "err = None"
    proof (cases err)
      case (Some e)
      with part [OF r] obtain x j where "sys_read w (fd dev) j = Inl x" by auto
      with ok show ?thesis by (metis sum.distinct(1))
    qed simp
    with part [OF r] r show ?thesis by auto
  qed
  from part total good show ?thesis by blast
qed


theorem Read_collects_witness:
  "Read quiet_world \<lparr>fd = 3, speed = 1000000, cs = Some 1\<rparr> [0, 0, 0, 0, 0]
     = Some (None, [1, 2, 3, 4, 5],
         [CsWrite 1 True, SysRead 3 5 (Inr 3), SysRead 3 2 (Inr 2), CsWrite 1 False]) \<and>
   bytes_read [CsWrite 1 True, SysRead 3 5 (Inr 3), SysRead 3 2 (Inr 2), CsWrite 1 False] = 5 \<and>
   (\<exists>r. Read quiet_world \<lparr>fd = 3, speed = 1000000, cs = Some 1\<rparr> [0, 0, 0, 0, 0] = Some r)"
proof -
  have pos: "\<forall>k bs. sys_read quiet_world (fd \<lparr>fd = 3, speed = 1000000, cs = Some 1\<rparr>) k = Inr bs \<longrightarrow> bs \<noteq> []"
    by (auto simp: quiet_world_def)
  have run: "Read quiet_world \<lparr>fd = 3, speed = 1000000, cs = Some 1\<rparr> [0, 0, 0, 0, 0]
     = Some (None, [1, 2, 3, 4, 5],
         [CsWrite 1 True, SysRead 3 5 (Inr 3), SysRead 3 2 (Inr 2), CsWrite 1 False])"
    by (simp add: Read_def Read_loop.simps cs_write_def quiet_world_def)
  from Read_collects [of quiet_world "\<lparr>fd = 3, speed = 1000000, cs = Some 1\<rparr>" "[0, 0, 0, 0, 0]"] pos run
  show ?thesis by simp
qed

text \<open>The condition is needed: a device that keeps answering with no bytes holds \<open>Read\<close> forever.\<close>

lemma Read_stalls:
  assumes "\<forall>j. sys_read w (fd dev) j = Inr []" and "buf \<noteq> []"
  shows "Read w dev buf = None"
proof (cases "Read_loop w (fd dev) 0 0 buf (cs_write dev True)")
  case None
  then show ?thesis by (simp add: Read_def)
next
  case (Some r)
  from Read_loop_stalls [OF Some] assms show ?thesis by simp
qed

section \<open>The setters convert without a range check\<close>

lemma ucast8_sint: "uint (ucast (n :: 64 word) :: 8 word) = sint n mod 2 ^ 8"
proof -
  have "uint (ucast n :: 8 word) = take_bit 8 (uint n)"
    by (simp add: unsigned_ucast_eq)
  also have "\<dots> = take_bit 8 (sint n)"
    by (simp add: sint_uint take_bit_signed_take_bit)
  finally show ?thesis by (simp add: take_bit_eq_mod)
qed

lemma ucast32_sint: "uint (ucast (n :: 64 word) :: 32 word) = sint n mod 2 ^ 32"
proof -
  have "uint (ucast n :: 32 word) = take_bit 32 (uint n)"
    by (simp add: unsigned_ucast_eq)
  also have "\<dots> = take_bit 32 (sint n)"
    by (simp add: sint_uint take_bit_signed_take_bit)
  finally show ?thesis by (simp add: take_bit_eq_mod)
qed

lemma minus_one_64: "(- 1 :: 64 word) = 0xFFFFFFFFFFFFFFFF"
  by simp

lemma ucast_minus_one_32: "ucast (- 1 :: 64 word) = (0xFFFFFFFF :: 32 word)"
  by (simp only: minus_one_64) simp

text \<open>
  C10. For every \<open>n\<close>, \<open>SetBitsPerWord(n)\<close> makes exactly one ioctl, with the write code for
  the word size and the value \<open>n mod 2^8\<close>; \<open>SetMaxSpeed(n)\<close> makes exactly one ioctl, with
  the write code for the speed and the value \<open>n mod 2^32\<close>. The result is the ioctl's:
  nothing is rejected locally.
\<close>

theorem setters_wrap:
  "snd (SetBitsPerWord w dev n) = [SysIoctl (fd dev) 0x40016B03 (ArgU8 (ucast n))] \<and>
   uint (ucast n :: 8 word) = sint n mod 2 ^ 8 \<and>
   fst (SetBitsPerWord w dev n) = fst (fst (syscall w dev 0x40016B03 (ArgU8 (ucast n)))) \<and>
   snd (SetMaxSpeed w dev n) = [SysIoctl (fd dev) 0x40046B04 (ArgU32 (ucast n))] \<and>
   uint (ucast n :: 32 word) = sint n mod 2 ^ 32 \<and>
   fst (SetMaxSpeed w dev n) = fst (fst (syscall w dev 0x40046B04 (ArgU32 (ucast n))))"
  using ucast8_sint [of n] ucast32_sint [of n]
  by (simp add: SetBitsPerWord_def SetMaxSpeed_def syscallU8_def syscallU32_def syscall_def
      spi_IOC_WR_BITS_PER_WORD_def spi_IOC_WR_MAX_SPEED_HZ_def split: prod.splits)

text \<open>\<open>SetBitsPerWord(256)\<close> writes 0 and \<open>SetMaxSpeed(-1)\<close> writes \<open>0xFFFFFFFF\<close>; both succeed.\<close>

theorem setters_wrap_witness:
  "SetBitsPerWord quiet_world \<lparr>fd = 3, speed = 1000000, cs = None\<rparr> 256
     = (None, [SysIoctl 3 0x40016B03 (ArgU8 0)]) \<and>
   SetMaxSpeed quiet_world \<lparr>fd = 3, speed = 1000000, cs = None\<rparr> (- 1)
     = (None, [SysIoctl 3 0x40046B04 (ArgU32 0xFFFFFFFF)]) \<and>
   sint (- 1 :: go_int) = - 1"
  using setters_wrap [of quiet_world "\<lparr>fd = 3, speed = 1000000, cs = None\<rparr>" 256]
    setters_wrap [of quiet_world "\<lparr>fd = 3, speed = 1000000, cs = None\<rparr>" "- 1"]
  by (simp add: SetBitsPerWord_def SetMaxSpeed_def syscallU8_def syscallU32_def syscall_def
      spi_IOC_WR_BITS_PER_WORD_def spi_IOC_WR_MAX_SPEED_HZ_def quiet_world_def ucast_minus_one_32)

end
